theory Spec2Isabelle
  imports Complex_Main "HOL-Library.Sublist"
begin

section \<open>Tank battle arena server: the simulation core of server.js\<close>

text \<open>
  The server keeps every coordinate, speed and angle in a JavaScript number.  The
  embedding reads these as \<^typ>\<open>real\<close>: rounding, infinities and NaN of IEEE doubles
  are outside the model.  Hit points, scores and clock readings only ever hold whole
  numbers in server.js and are \<^typ>\<open>int\<close>.  Each call of \<^verbatim>\<open>Date.now()\<close> and of
  \<^verbatim>\<open>Math.random()\<close> is an explicit argument of the function that makes the call.
\<close>

subsection \<open>GAME_CONFIG\<close>

definition ARENA_WIDTH :: real where "ARENA_WIDTH = 1200"
definition ARENA_HEIGHT :: real where "ARENA_HEIGHT = 700"
definition TANK_RADIUS :: real where "TANK_RADIUS = 15"
definition BULLET_RADIUS :: real where "BULLET_RADIUS = 10"
definition BULLET_SPEED :: real where "BULLET_SPEED = 35"
definition BULLET_DAMAGE :: int where "BULLET_DAMAGE = 25"
definition MAX_HEALTH :: int where "MAX_HEALTH = 100"
definition TANK_SPEED :: real where "TANK_SPEED = 30"
definition TANK_BOOST_MULTIPLIER :: real where "TANK_BOOST_MULTIPLIER = 18 / 10"
definition FRICTION :: real where "FRICTION = 92 / 100"
definition RESPAWN_TIME :: int where "RESPAWN_TIME = 3000"
definition BULLET_LIFETIME :: int where "BULLET_LIFETIME = 2000"
definition REPAIR_AMOUNT :: int where "REPAIR_AMOUNT = 10"
definition REPAIR_COOLDOWN :: int where "REPAIR_COOLDOWN = 5000"

subsection \<open>JavaScript values and library functions\<close>

text \<open>
  The \<^verbatim>\<open>boost\<close> field of a move message is whatever the client sent: absent, a
  boolean or a number.  \<^verbatim>\<open>a || 1\<close> yields \<^verbatim>\<open>a\<close> when it is truthy and 1
  otherwise; multiplication converts a boolean to 0 or 1.  The number of an absent
  value is NaN in JavaScript; \<open>toNumber\<close> is never asked for it, because
  \<^verbatim>\<open>||\<close> has replaced an absent value by 1 before.
\<close>

datatype jsval = JUndefined | JBool bool | JNum real

fun truthy :: "jsval \<Rightarrow> bool" where
  "truthy JUndefined = False"
| "truthy (JBool b) = b"
| "truthy (JNum r) = (r \<noteq> 0)"

fun toNumber :: "jsval \<Rightarrow> real" where
  "toNumber (JNum r) = r"
| "toNumber (JBool b) = (if b then 1 else 0)"
| "toNumber JUndefined = 0"

definition js_or :: "jsval \<Rightarrow> jsval \<Rightarrow> jsval" where
  "js_or a b = (if truthy a then a else b)"

text \<open>\<^verbatim>\<open>Math.atan2(y, x)\<close> on the reals (signed zeros are not modelled).\<close>

definition Math_atan2 :: "real \<Rightarrow> real \<Rightarrow> real" where
  "Math_atan2 b a =
     (if 0 < a then arctan (b / a)
      else if a < 0 then (if 0 \<le> b then arctan (b / a) + pi else arctan (b / a) - pi)
      else if 0 < b then pi / 2
      else if b < 0 then - (pi / 2)
      else 0)"

subsection \<open>Player\<close>

text \<open>
  The fields of the class, under their names in server.js; \<^verbatim>\<open>id\<close> is \<open>pid\<close>
  here, since \<open>id\<close> is the identity function of HOL.
\<close>

type_synonym socket_id = string

record player =
  pid :: socket_id
  x :: real
  y :: real
  vx :: real
  vy :: real
  angle :: real
  targetAngle :: real
  hp :: int
  score :: int
  name :: string
  isAlive :: bool
  respawnTime :: int
  lastShot :: int
  shootCooldown :: int

text \<open>The constructor \<^verbatim>\<open>new Player(id, x, y)\<close>.\<close>

definition Player :: "socket_id \<Rightarrow> real \<Rightarrow> real \<Rightarrow> player" where
  "Player i x0 y0 =
     \<lparr> pid = i, x = x0, y = y0, vx = 0, vy = 0, angle = 0, targetAngle = 0,
       hp = MAX_HEALTH, score = 0, name = ''Player_'' @ take 4 i, isAlive = True,
       respawnTime = 0, lastShot = 0, shootCooldown = 300 \<rparr>"

text \<open>The payload of a \<^verbatim>\<open>move\<close> message.\<close>

record move_input =
  dx :: real
  dy :: real
  boost :: jsval

definition applyInput :: "move_input \<Rightarrow> player \<Rightarrow> player" where
  "applyInput inp p =
     (if \<not> isAlive p then p
      else
        let speed = TANK_SPEED * toNumber (js_or (boost inp) (JNum 1)) in
        if dx inp \<noteq> 0 \<or> dy inp \<noteq> 0 then
          let vx1 = dx inp * speed;
              vy1 = dy inp * speed
          in p\<lparr> vx := vx1, vy := vy1, targetAngle := Math_atan2 vy1 vx1 \<rparr>
        else p)"

subsection \<open>Outbound events\<close>

text \<open>What \<^verbatim>\<open>toJSON\<close> of a player and of a bullet put on the wire.\<close>

record player_json =
  json_id :: socket_id
  json_x :: real
  json_y :: real
  json_angle :: real
  json_hp :: int
  json_score :: int
  json_name :: string
  json_isAlive :: bool
  json_vx :: real
  json_vy :: real

record bullet_json =
  jb_x :: real
  jb_y :: real
  jb_vx :: real
  jb_vy :: real
  jb_angle :: real
  jb_owner :: socket_id

text \<open>
  Every \<^verbatim>\<open>emit\<close> of the simulation core.  The first argument of a targeted event is
  the socket it is sent to; \<open>EvPlayerDied\<close> and \<open>EvState\<close> go to every socket.
\<close>

datatype event =
    EvDied socket_id
  | EvRespawned socket_id
  | EvKill socket_id string
  | EvHit socket_id int socket_id
  | EvPlayerDied socket_id socket_id
  | EvState "(socket_id \<times> player_json) list" "bullet_json list" int

definition toJSON :: "player \<Rightarrow> player_json" where
  "toJSON p =
     \<lparr> json_id = pid p, json_x = x p, json_y = y p, json_angle = angle p, json_hp = hp p,
       json_score = score p, json_name = name p, json_isAlive = isAlive p,
       json_vx = vx p, json_vy = vy p \<rparr>"

subsection \<open>Player methods\<close>

text \<open>
  The two \<^verbatim>\<open>while\<close> loops of \<^verbatim>\<open>update\<close> that bring the heading difference
  back towards the interval from \<open>-\<pi>\<close> to \<open>\<pi>\<close>.
\<close>

function wrap_down :: "real \<Rightarrow> real" where
  "wrap_down d = (if d > pi then wrap_down (d - 2 * pi) else d)"
  by pat_completeness auto
termination
proof (relation "measure (\<lambda>d. nat \<lceil>d / (2 * pi)\<rceil>)")
  show "wf (measure (\<lambda>d. nat \<lceil>d / (2 * pi)\<rceil>))" by (rule wf_measure)
next
  fix d :: real
  assume gt: "pi < d"
  have eq: "(d - 2 * pi) / (2 * pi) = d / (2 * pi) - 1"
    by (simp add: diff_divide_distrib)
  have "0 < d" using gt pi_gt_zero by linarith
  then have "0 < d / (2 * pi)" by simp
  then have "nat \<lceil>d / (2 * pi) - 1\<rceil> < nat \<lceil>d / (2 * pi)\<rceil>" by simp
  then show "(d - 2 * pi, d) \<in> measure (\<lambda>d. nat \<lceil>d / (2 * pi)\<rceil>)"
    by (simp only: in_measure eq)
qed

function wrap_up :: "real \<Rightarrow> real" where
  "wrap_up d = (if d < - pi then wrap_up (d + 2 * pi) else d)"
  by pat_completeness auto
termination
proof (relation "measure (\<lambda>d. nat \<lceil>(- d) / (2 * pi)\<rceil>)")
  show "wf (measure (\<lambda>d. nat \<lceil>(- d) / (2 * pi)\<rceil>))" by (rule wf_measure)
next
  fix d :: real
  assume lt: "d < - pi"
  have eq: "(- (d + 2 * pi)) / (2 * pi) = (- d) / (2 * pi) - 1"
    by (simp add: diff_divide_distrib)
  have "0 < - d" using lt pi_gt_zero by linarith
  then have "0 < (- d) / (2 * pi)" by (simp add: divide_less_0_iff)
  then have "nat \<lceil>(- d) / (2 * pi) - 1\<rceil> < nat \<lceil>(- d) / (2 * pi)\<rceil>"
    by simp
  then show "(d + 2 * pi, d) \<in> measure (\<lambda>d. nat \<lceil>(- d) / (2 * pi)\<rceil>)"
    by (simp only: in_measure eq)
qed

declare wrap_down.simps [simp del] wrap_up.simps [simp del]

definition respawn :: "real \<Rightarrow> real \<Rightarrow> player \<Rightarrow> player \<times> event list" where
  "respawn r1 r2 p =
     (p\<lparr> isAlive := True, hp := MAX_HEALTH,
         x := r1 * (ARENA_WIDTH - 200) + 100,
         y := r2 * (ARENA_HEIGHT - 200) + 100,
         vx := 0, vy := 0, angle := 0, targetAngle := 0 \<rparr>,
      [EvRespawned (pid p)])"

text \<open>
  \<^verbatim>\<open>update(deltaTime)\<close>; \<open>now\<close> is the clock reading of the respawn test, \<open>r1\<close> and
  \<open>r2\<close> the two random draws a respawn makes.
\<close>

definition update :: "real \<Rightarrow> int \<Rightarrow> real \<Rightarrow> real \<Rightarrow> player \<Rightarrow> player \<times> event list" where
  "update deltaTime now r1 r2 p =
     (if \<not> isAlive p then
        (if now > respawnTime p then respawn r1 r2 p else (p, []))
      else
        let vx1 = vx p * FRICTION;
            vy1 = vy p * FRICTION;
            x1 = x p + vx1 * deltaTime;
            y1 = y p + vy1 * deltaTime;
            angleDiff = wrap_up (wrap_down (targetAngle p - angle p));
            angle1 = angle p + angleDiff * (2 / 10);
            x2 = max TANK_RADIUS (min (ARENA_WIDTH - TANK_RADIUS) x1);
            y2 = max TANK_RADIUS (min (ARENA_HEIGHT - TANK_RADIUS) y1)
        in (p\<lparr> vx := vx1, vy := vy1, x := x2, y := y2, angle := angle1 \<rparr>, []))"

subsection \<open>Bullets\<close>

text \<open>The fields of a bullet carry the prefix \<open>b_\<close> to keep them apart from the player's.\<close>

record bullet =
  b_x :: real
  b_y :: real
  b_vx :: real
  b_vy :: real
  b_owner :: socket_id
  b_createdAt :: int
  b_angle :: real

text \<open>
  \<^verbatim>\<open>shoot()\<close> returns the data of the new bullet, or nothing (\<^verbatim>\<open>null\<close>).  Both
  clock readings of one call are taken to be the same \<open>now\<close>.
\<close>

definition shoot :: "int \<Rightarrow> player \<Rightarrow> player \<times> bullet option" where
  "shoot now p =
     (if \<not> isAlive p then (p, None)
      else if now - lastShot p < shootCooldown p then (p, None)
      else
        let cannonLength = 25;
            bulletX = x p + cos (angle p) * cannonLength;
            bulletY = y p + sin (angle p) * cannonLength
        in (p\<lparr> lastShot := now \<rparr>,
            Some \<lparr> b_x = bulletX, b_y = bulletY,
                   b_vx = cos (angle p) * BULLET_SPEED,
                   b_vy = sin (angle p) * BULLET_SPEED,
                   b_owner = pid p, b_createdAt = now, b_angle = angle p \<rparr>))"

text \<open>The constructor \<^verbatim>\<open>new Bullet(data)\<close> stamps the bullet with the clock.\<close>

definition Bullet :: "int \<Rightarrow> bullet \<Rightarrow> bullet" where
  "Bullet now data = data\<lparr> b_createdAt := now \<rparr>"

text \<open>\<^verbatim>\<open>Bullet.update(deltaTime)\<close>: the moved bullet, and whether it stays.\<close>

definition Bullet_update :: "real \<Rightarrow> int \<Rightarrow> bullet \<Rightarrow> bullet \<times> bool" where
  "Bullet_update deltaTime now b =
     (let b1 = b\<lparr> b_x := b_x b + b_vx b * deltaTime, b_y := b_y b + b_vy b * deltaTime \<rparr>
      in if b_x b1 < - 50 \<or> b_x b1 > ARENA_WIDTH + 50 \<or>
            b_y b1 < - 50 \<or> b_y b1 > ARENA_HEIGHT + 50 \<or>
            now - b_createdAt b1 > BULLET_LIFETIME
         then (b1, False)
         else (b1, True))"

definition Bullet_toJSON :: "bullet \<Rightarrow> bullet_json" where
  "Bullet_toJSON b =
     \<lparr> jb_x = b_x b, jb_y = b_y b, jb_vx = b_vx b, jb_vy = b_vy b,
       jb_angle = Math_atan2 (b_vy b) (b_vx b), jb_owner = b_owner b \<rparr>"

subsection \<open>The registry of players and the methods that reach into it\<close>

text \<open>
  \<^verbatim>\<open>players\<close> is an object keyed by socket id; its values are enumerated in
  insertion order (socket ids are not array indices).  It is a list of players, each
  stored under its own \<open>pid\<close>.
  \<^verbatim>\<open>lastRepairTime\<close> is a map from socket ids to clock readings.
\<close>

definition lookup :: "socket_id \<Rightarrow> player list \<Rightarrow> player option" where
  "lookup k ps = find (\<lambda>p. pid p = k) ps"

definition modify :: "socket_id \<Rightarrow> (player \<Rightarrow> player) \<Rightarrow> player list \<Rightarrow> player list" where
  "modify k f ps = map (\<lambda>p. if pid p = k then f p else p) ps"

definition die :: "int \<Rightarrow> player \<Rightarrow> player \<times> event list" where
  "die now p =
     (p\<lparr> isAlive := False, hp := 0, respawnTime := now + RESPAWN_TIME, vx := 0, vy := 0 \<rparr>,
      [EvDied (pid p)])"

text \<open>
  \<^verbatim>\<open>players[k].takeDamage(damage, attackerId)\<close>: the registry afterwards, the
  return value and the events sent.
\<close>

definition takeDamage ::
  "int \<Rightarrow> int \<Rightarrow> socket_id \<Rightarrow> socket_id \<Rightarrow> player list \<Rightarrow> player list \<times> bool \<times> event list" where
  "takeDamage now damage attackerId k ps =
     (case lookup k ps of
        None \<Rightarrow> (ps, False, [])
      | Some p \<Rightarrow>
          if \<not> isAlive p then (ps, False, [])
          else
            let p1 = p\<lparr> hp := hp p - damage \<rparr> in
            if hp p1 \<le> 0 then
              let (p2, ev) = die now p1;
                  ps1 = modify k (\<lambda>_. p2) ps
              in (case lookup attackerId ps1 of
                    Some a \<Rightarrow>
                      (modify attackerId (\<lambda>q. q\<lparr> score := score q + 100 \<rparr>) ps1, True,
                       ev @ [EvKill attackerId (name p2)])
                  | None \<Rightarrow> (ps1, True, ev))
            else (modify k (\<lambda>_. p1) ps, False, []))"

text \<open>
  \<^verbatim>\<open>repair()\<close>.  A stored reading of 0 is falsy in the guard, so it counts as no
  earlier repair.
\<close>

definition repair ::
  "int \<Rightarrow> (socket_id \<rightharpoonup> int) \<Rightarrow> player \<Rightarrow> player \<times> (socket_id \<rightharpoonup> int) \<times> bool" where
  "repair now lrt p =
     (if \<not> isAlive p then (p, lrt, False)
      else if (case lrt (pid p) of
                 None \<Rightarrow> False
               | Some t \<Rightarrow> t \<noteq> 0 \<and> now - t < REPAIR_COOLDOWN)
      then (p, lrt, False)
      else (p\<lparr> hp := min MAX_HEALTH (hp p + REPAIR_AMOUNT) \<rparr>, lrt(pid p \<mapsto> now), True))"

subsection \<open>The game loop\<close>

text \<open>
  The clock readings of one tick, one for every place where \<^verbatim>\<open>gameLoop\<close> or a
  method it calls reads \<^verbatim>\<open>Date.now()\<close>: at the start of the tick, in the
  \<^verbatim>\<open>update\<close> of the player with a given socket id, in the \<^verbatim>\<open>update\<close> of the
  bullet at a given index of the array, in the \<^verbatim>\<open>die\<close> that a hit of the bullet at
  a given index causes, for the timestamp of the snapshot, and for the final sweep.
  Each of these places is reached at most once in a tick.  The readings are independent
  of each other here; a real clock hands them out in non-decreasing order.
\<close>

record clock =
  c_start :: int
  c_update :: "socket_id \<Rightarrow> int"
  c_bullet :: "nat \<Rightarrow> int"
  c_die :: "nat \<Rightarrow> int"
  c_stamp :: int
  c_sweep :: int

record world =
  players :: "player list"
  bullets :: "bullet list"
  lastRepairTime :: "socket_id \<rightharpoonup> int"
  lastUpdate :: int

text \<open>
  The inner scan of the bullet loop: the first player, in enumeration order, that is
  alive, is not the owner of the bullet and is closer than the two radii.
\<close>

definition hits :: "bullet \<Rightarrow> player \<Rightarrow> bool" where
  "hits b p =
     (isAlive p \<and> pid p \<noteq> b_owner b \<and>
      (let ddx = b_x b - x p;
           ddy = b_y b - y p;
           distance = sqrt (ddx * ddx + ddy * ddy)
       in distance < TANK_RADIUS + BULLET_RADIUS))"

text \<open>
  The bullet loop runs from the last index down to 0 and removes the bullet at the
  current index only, so the bullets behind the head of the list are handled first and
  the survivors keep their order.  \<open>i\<close> is the array index of the head of the list.
  Result: remaining bullets, players, events.
\<close>

fun bullets_phase ::
  "clock \<Rightarrow> real \<Rightarrow> nat \<Rightarrow> bullet list \<Rightarrow> player list \<Rightarrow> bullet list \<times> player list \<times> event list" where
  "bullets_phase clk deltaTime i [] ps = ([], ps, [])"
| "bullets_phase clk deltaTime i (b # bs) ps =
     (case bullets_phase clk deltaTime (Suc i) bs ps of
        (bs1, ps1, ev1) \<Rightarrow>
          (case Bullet_update deltaTime (c_bullet clk i) b of
             (b1, stays) \<Rightarrow>
               if \<not> stays then (bs1, ps1, ev1)
               else
                 (case find (hits b1) ps1 of
                    None \<Rightarrow> (b1 # bs1, ps1, ev1)
                  | Some target \<Rightarrow>
                      (case takeDamage (c_die clk i) BULLET_DAMAGE (b_owner b1) (pid target) ps1 of
                         (ps2, died, ev2) \<Rightarrow>
                           (bs1, ps2,
                            ev1 @ ev2 @ [EvHit (pid target) BULLET_DAMAGE (b_owner b1)] @
                            (if died then [EvPlayerDied (pid target) (b_owner b1)] else []))))))"

text \<open>The body of the tank-to-tank loop for one pair \<open>p1 = playerArray[i]\<close>, \<open>p2 = playerArray[j]\<close>.\<close>

definition collide :: "player \<Rightarrow> player \<Rightarrow> player \<times> player" where
  "collide p1 p2 =
     (if isAlive p1 \<and> isAlive p2 then
        let ddx = x p1 - x p2;
            ddy = y p1 - y p2;
            distance = sqrt (ddx * ddx + ddy * ddy);
            minDistance = TANK_RADIUS * 2
        in if distance < minDistance then
             let ang = Math_atan2 ddy ddx;
                 targetX = x p1 + cos ang * minDistance;
                 targetY = y p1 + sin ang * minDistance;
                 ax = (targetX - x p2) * (1 / 10);
                 ay = (targetY - y p2) * (1 / 10);
                 overlap = (minDistance - distance) / 2
             in (p1\<lparr> vx := vx p1 - ax, vy := vy p1 - ay,
                     x := x p1 + cos ang * overlap, y := y p1 + sin ang * overlap \<rparr>,
                 p2\<lparr> vx := vx p2 + ax, vy := vy p2 + ay,
                     x := x p2 - cos ang * overlap, y := y p2 - sin ang * overlap \<rparr>)
           else (p1, p2)
      else (p1, p2))"

definition collide_at :: "nat \<Rightarrow> nat \<Rightarrow> player list \<Rightarrow> player list" where
  "collide_at i j ps = (case collide (ps ! i) (ps ! j) of (q1, q2) \<Rightarrow> ps[i := q1, j := q2])"

text \<open>
  The nested loops \<^verbatim>\<open>for i in 0 .. n-1\<close>, \<^verbatim>\<open>for j in i+1 .. n-1\<close> over the array
  of players, whose length \<open>n\<close> is fixed before the loops start.
\<close>

definition tank_collisions :: "player list \<Rightarrow> player list" where
  "tank_collisions ps =
     fold (\<lambda>i. fold (\<lambda>j. collide_at i j) [i + 1 ..< length ps]) [0 ..< length ps] ps"

definition sweep :: "int \<Rightarrow> bullet list \<Rightarrow> bullet list" where
  "sweep nowTime bs = filter (\<lambda>b. \<not> nowTime - b_createdAt b > BULLET_LIFETIME) bs"

text \<open>
  One run of \<^verbatim>\<open>gameLoop\<close> under the clock readings \<open>clk\<close>.  \<open>rnd k\<close> gives the
  two random draws of a respawn of player \<open>k\<close> in this tick.  The result is the world
  after the tick and the events sent, in order.
\<close>

definition gameLoop :: "clock \<Rightarrow> (socket_id \<Rightarrow> real \<times> real) \<Rightarrow> world \<Rightarrow> world \<times> event list" where
  "gameLoop clk rnd w =
     (let now = c_start clk;
          deltaTime = real_of_int (now - lastUpdate w) / 1000;
          upd = map (\<lambda>p. update deltaTime (c_update clk (pid p)) (fst (rnd (pid p))) (snd (rnd (pid p))) p)
                  (players w);
          ps1 = map fst upd;
          ev1 = concat (map snd upd)
      in case bullets_phase clk deltaTime 0 (bullets w) ps1 of
           (bs2, ps2, ev2) \<Rightarrow>
             let ps3 = tank_collisions ps2;
                 state = EvState (map (\<lambda>p. (pid p, toJSON p)) ps3) (map Bullet_toJSON bs2)
                           (c_stamp clk);
                 nowTime = c_sweep clk
             in (w\<lparr> players := ps3, bullets := sweep nowTime bs2, lastUpdate := now \<rparr>,
                 ev1 @ ev2 @ [state]))"

subsection \<open>Vocabulary of the properties\<close>

text \<open>
  The index pairs in the order in which the tank-to-tank loops visit them.
\<close>

definition pair_order :: "nat \<Rightarrow> (nat \<times> nat) list" where
  "pair_order n = concat (map (\<lambda>i. map (\<lambda>j. (i, j)) [i + 1 ..< n]) [0 ..< n])"

text \<open>
  The bullets that their own \<^verbatim>\<open>Bullet.update\<close> of the tick lets stay, moved, in
  array order; and the bullets a client reads off a \<^verbatim>\<open>state\<close> event.
\<close>

definition kept_by_update :: "clock \<Rightarrow> real \<Rightarrow> nat \<Rightarrow> bullet list \<Rightarrow> bullet list" where
  "kept_by_update clk deltaTime i bs =
     map (\<lambda>(j, b). fst (Bullet_update deltaTime (c_bullet clk j) b))
       (filter (\<lambda>(j, b). snd (Bullet_update deltaTime (c_bullet clk j) b)) (enumerate i bs))"

definition snapshot_bullets :: "event \<Rightarrow> bullet_json list" where
  "snapshot_bullets e = (case e of EvState js bs t \<Rightarrow> bs | _ \<Rightarrow> [])"

text \<open>The hit-point invariant of a tank.\<close>

definition hp_inv :: "player \<Rightarrow> bool" where
  "hp_inv p = (0 \<le> hp p \<and> hp p \<le> MAX_HEALTH \<and> (hp p = 0) = (\<not> isAlive p))"

text \<open>
  What can happen to the registry: a method call on the player stored under a socket
  id, or one run of the game loop.  Each step carries the clock reading of the moment;
  a run of the game loop carries the further readings of its tick.
\<close>

datatype operation =
    TakeDamage int socket_id
  | Repair
  | Respawn real real
  | Tick real real real
  | Loop clock "socket_id \<Rightarrow> real \<times> real"

fun perform :: "int \<Rightarrow> socket_id \<Rightarrow> operation \<Rightarrow> world \<Rightarrow> world" where
  "perform now k (TakeDamage damage attackerId) w =
     w\<lparr> players := fst (takeDamage now damage attackerId k (players w)) \<rparr>"
| "perform now k Repair w =
     (case lookup k (players w) of
        None \<Rightarrow> w
      | Some p \<Rightarrow>
          (case repair now (lastRepairTime w) p of
             (p1, lrt1, ok) \<Rightarrow> w\<lparr> players := modify k (\<lambda>_. p1) (players w), lastRepairTime := lrt1 \<rparr>))"
| "perform now k (Respawn r1 r2) w =
     w\<lparr> players := modify k (\<lambda>p. fst (respawn r1 r2 p)) (players w) \<rparr>"
| "perform now k (Tick deltaTime r1 r2) w =
     w\<lparr> players := modify k (\<lambda>p. fst (update deltaTime now r1 r2 p)) (players w) \<rparr>"
| "perform now k (Loop clk rnd) w = fst (gameLoop (clk\<lparr> c_start := now \<rparr>) rnd w)"

fun run :: "(int \<times> socket_id \<times> operation) list \<Rightarrow> world \<Rightarrow> world" where
  "run [] w = w"
| "run ((now, k, opn) # rest) w = run rest (perform now k opn w)"

fun damage_ok :: "int \<times> socket_id \<times> operation \<Rightarrow> bool" where
  "damage_ok (now, k, TakeDamage damage attackerId) = (0 \<le> damage)"
| "damage_ok (now, k, opn) = True"

text \<open>A run of \<^verbatim>\<open>update\<close> calls on one tank, each with its time step, clock reading and random draws.\<close>

fun updates :: "(real \<times> int \<times> real \<times> real) list \<Rightarrow> player \<Rightarrow> player" where
  "updates [] p = p"
| "updates ((deltaTime, now, r1, r2) # rest) p = updates rest (fst (update deltaTime now r1 r2 p))"

subsection \<open>Concrete scenarios\<close>

text \<open>Fixed tanks and messages at which the theorems below are evaluated.\<close>

definition tank_a :: player where
  "tank_a = Player ''aaaa'' 100 100"

definition move_flag :: move_input where
  "move_flag = \<lparr> dx = 1, dy = 0, boost = JBool True \<rparr>"

definition move_fast :: move_input where
  "move_fast = \<lparr> dx = 0, dy = - 1, boost = JNum (18 / 10) \<rparr>"

definition tank_east :: player where
  "tank_east = Player ''east'' 110 100"

definition tank_west :: player where
  "tank_west = Player ''west'' 100 100"

definition tank_edge :: player where
  "tank_edge = Player ''edge'' 1185 100"

definition tank_near :: player where
  "tank_near = Player ''near'' 1175 100"

text \<open>A tick in which every clock reading is the same.\<close>

definition steady_clock :: "int \<Rightarrow> clock" where
  "steady_clock t =
     \<lparr> c_start = t, c_update = (\<lambda>k. t), c_bullet = (\<lambda>j. t), c_die = (\<lambda>j. t),
       c_stamp = t, c_sweep = t \<rparr>"

text \<open>A tick in which the clock moves on by 1 ms after the bullets are updated.\<close>

definition clock_race :: clock where
  "clock_race =
     \<lparr> c_start = 3000, c_update = (\<lambda>k. 3000), c_bullet = (\<lambda>j. 3000), c_die = (\<lambda>j. 3000),
       c_stamp = 3001, c_sweep = 3001 \<rparr>"

definition world_edge :: world where
  "world_edge = \<lparr> players = [tank_edge, tank_near], bullets = [],
                   lastRepairTime = Map.empty, lastUpdate = 1992 \<rparr>"

text \<open>The positions a client reads off a \<^verbatim>\<open>state\<close> event.\<close>

definition snapshot_positions :: "event \<Rightarrow> (socket_id \<times> real \<times> real) list" where
  "snapshot_positions e =
     (case e of EvState js bs t \<Rightarrow> map (\<lambda>(k, j). (k, json_x j, json_y j)) js | _ \<Rightarrow> [])"

definition tank_l :: player where "tank_l = Player ''left'' 100 100"
definition tank_m :: player where "tank_m = Player ''mid'' 112 100"
definition tank_r :: player where "tank_r = Player ''right'' 124 100"

definition tank_dead :: player where
  "tank_dead = tank_a\<lparr> isAlive := False, hp := 0, respawnTime := 8000 \<rparr>"

definition tank_busy :: player where
  "tank_busy = tank_a\<lparr> lastShot := 4900 \<rparr>"

definition repaired_at_4000 :: "socket_id \<rightharpoonup> int" where
  "repaired_at_4000 = [''aaaa'' \<mapsto> 4000]"

definition old_bullet :: bullet where
  "old_bullet = \<lparr> b_x = 500, b_y = 500, b_vx = 35, b_vy = 0, b_owner = ''east'',
                  b_createdAt = 1000, b_angle = 0 \<rparr>"

definition fresh_bullet :: bullet where
  "fresh_bullet = \<lparr> b_x = 500, b_y = 300, b_vx = 0, b_vy = 35, b_owner = ''aaaa'',
                    b_createdAt = 2500, b_angle = pi / 2 \<rparr>"

definition late_bullet :: bullet where
  "late_bullet = \<lparr> b_x = 500, b_y = 500, b_vx = 35, b_vy = 0, b_owner = ''aaaa'',
                   b_createdAt = 1000, b_angle = 0 \<rparr>"

definition world_race :: world where
  "world_race = \<lparr> players = [tank_a], bullets = [late_bullet],
                   lastRepairTime = Map.empty, lastUpdate = 2992 \<rparr>"

definition world_shot :: world where
  "world_shot = \<lparr> players = [tank_a], bullets = [old_bullet, fresh_bullet],
                   lastRepairTime = Map.empty, lastUpdate = 3000 \<rparr>"

definition world_duel :: world where
  "world_duel = \<lparr> players = [tank_a, tank_east], bullets = [],
                   lastRepairTime = Map.empty, lastUpdate = 0 \<rparr>"

definition duel_steps :: "(int \<times> socket_id \<times> operation) list" where
  "duel_steps =
     [(1000, ''aaaa'', TakeDamage 25 ''east''), (1100, ''aaaa'', TakeDamage 25 ''east''),
      (1200, ''aaaa'', TakeDamage 25 ''east''), (1300, ''aaaa'', TakeDamage 25 ''east''),
      (2000, ''aaaa'', Repair), (5000, ''aaaa'', Tick (1 / 100) (1 / 2) (1 / 2)),
      (5100, ''aaaa'', Repair), (5200, ''aaaa'', TakeDamage 25 ''east''),
      (5300, ''aaaa'', Repair)]"

section \<open>Properties\<close>

subsection \<open>Library facts\<close>

lemmas GAME_CONFIG =
  ARENA_WIDTH_def ARENA_HEIGHT_def TANK_RADIUS_def BULLET_RADIUS_def BULLET_SPEED_def
  BULLET_DAMAGE_def MAX_HEALTH_def TANK_SPEED_def TANK_BOOST_MULTIPLIER_def FRICTION_def
  RESPAWN_TIME_def BULLET_LIFETIME_def REPAIR_AMOUNT_def REPAIR_COOLDOWN_def

lemma Math_atan2_scale: "0 < s \<Longrightarrow> Math_atan2 (b * s) (a * s) = Math_atan2 b a"
  by (simp add: Math_atan2_def zero_less_mult_iff mult_less_0_iff zero_le_mult_iff)

subsection \<open>Move input\<close>

text \<open>
  C1, as the claim states it, fails: it says that a set boost flag multiplies the speed
  by \<open>TANK_BOOST_MULTIPLIER\<close>.  \<^verbatim>\<open>applyInput\<close> multiplies by the value of the
  \<^verbatim>\<open>boost\<close> field itself, so the flag \<^verbatim>\<open>true\<close> counts as the factor 1: an
  alive tank moved in direction (1, 0) with \<^verbatim>\<open>boost: true\<close> gets the speed 30, not
  54.
\<close>

theorem applyInput_boost_flag_counterexample:
  "isAlive tank_a \<and> dx move_flag \<noteq> 0 \<and> boost move_flag = JBool True \<and>
   vx (applyInput move_flag tank_a) = 30 \<and>
   vx (applyInput move_flag tank_a) \<noteq> dx move_flag * TANK_SPEED * TANK_BOOST_MULTIPLIER"
  by (simp add: applyInput_def tank_a_def move_flag_def Player_def js_or_def TANK_SPEED_def
      TANK_BOOST_MULTIPLIER_def)

text \<open>
  C1, amended.  A tank that is not alive ignores the input, and so does an alive tank
  when the direction is the zero vector.  For an alive tank and a non-zero direction
  the velocity becomes direction * \<open>TANK_SPEED\<close> * \<open>m\<close>, where \<open>m\<close> is the number in
  the \<^verbatim>\<open>boost\<close> field when that is a non-zero number and 1 otherwise (absent, a
  boolean, or 0); the target heading becomes the angle of the new velocity, which is
  the angle of the direction whenever \<open>m\<close> is positive; no other field changes.
\<close>

theorem applyInput_effect:
  "(\<not> isAlive p \<longrightarrow> applyInput inp p = p) \<and>
   (isAlive p \<and> dx inp = 0 \<and> dy inp = 0 \<longrightarrow> applyInput inp p = p) \<and>
   (isAlive p \<and> (dx inp \<noteq> 0 \<or> dy inp \<noteq> 0) \<longrightarrow>
      (let m = (case boost inp of JNum r \<Rightarrow> if r = 0 then 1 else r | JBool b \<Rightarrow> 1 | JUndefined \<Rightarrow> 1);
           q = applyInput inp p
       in vx q = dx inp * TANK_SPEED * m \<and>
          vy q = dy inp * TANK_SPEED * m \<and>
          targetAngle q = Math_atan2 (vy q) (vx q) \<and>
          (0 < m \<longrightarrow> targetAngle q = Math_atan2 (dy inp) (dx inp)) \<and>
          q = p\<lparr> vx := vx q, vy := vy q, targetAngle := targetAngle q \<rparr>))"
proof (intro conjI impI)
  assume "\<not> isAlive p"
  then show "applyInput inp p = p" by (simp add: applyInput_def)
next
  assume "isAlive p \<and> dx inp = 0 \<and> dy inp = 0"
  then show "applyInput inp p = p" by (simp add: applyInput_def)
next
  assume a: "isAlive p \<and> (dx inp \<noteq> 0 \<or> dy inp \<noteq> 0)"
  define m where
    "m = (case boost inp of JNum r \<Rightarrow> if r = 0 then 1 else r | JBool b \<Rightarrow> 1 | JUndefined \<Rightarrow> (1::real))"
  have m: "toNumber (js_or (boost inp) (JNum 1)) = m"
    by (cases "boost inp") (simp_all add: m_def js_or_def)
  have eq: "applyInput inp p =
      p\<lparr> vx := dx inp * (TANK_SPEED * m), vy := dy inp * (TANK_SPEED * m),
         targetAngle := Math_atan2 (dy inp * (TANK_SPEED * m)) (dx inp * (TANK_SPEED * m)) \<rparr>"
    using a by (auto simp add: applyInput_def m Let_def)
  have ang: "targetAngle (applyInput inp p) = Math_atan2 (dy inp) (dx inp)" if "0 < m"
  proof -
    have "0 < TANK_SPEED * m" using that by (simp add: TANK_SPEED_def)
    then show ?thesis by (simp add: eq Math_atan2_scale)
  qed
  show "let m = (case boost inp of JNum r \<Rightarrow> if r = 0 then 1 else r | JBool b \<Rightarrow> 1 | JUndefined \<Rightarrow> 1);
           q = applyInput inp p
       in vx q = dx inp * TANK_SPEED * m \<and>
          vy q = dy inp * TANK_SPEED * m \<and>
          targetAngle q = Math_atan2 (vy q) (vx q) \<and>
          (0 < m \<longrightarrow> targetAngle q = Math_atan2 (dy inp) (dx inp)) \<and>
          q = p\<lparr> vx := vx q, vy := vy q, targetAngle := targetAngle q \<rparr>"
    unfolding Let_def m_def [symmetric] using ang by (simp add: eq)
qed

theorem applyInput_effect_witness:
  "isAlive tank_a \<and> dy move_fast \<noteq> 0 \<and>
   vx (applyInput move_fast tank_a) = 0 \<and> vy (applyInput move_fast tank_a) = - 54 \<and>
   targetAngle (applyInput move_fast tank_a) = - (pi / 2)"
proof -
  have a: "isAlive tank_a" by (simp add: tank_a_def Player_def)
  have d: "dy move_fast \<noteq> 0" "dx move_fast = 0" "dy move_fast = - 1"
    "boost move_fast = JNum (18 / 10)"
    by (simp_all add: move_fast_def)
  show ?thesis
    using applyInput_effect [of tank_a move_fast] a
    by (simp add: d Let_def TANK_SPEED_def Math_atan2_def)
qed

subsection \<open>Evaluating an update and a collision\<close>

lemma wrap_down_id: "d \<le> pi \<Longrightarrow> wrap_down d = d"
  by (simp add: wrap_down.simps)

lemma wrap_up_id: "- pi \<le> d \<Longrightarrow> wrap_up d = d"
  by (simp add: wrap_up.simps)

lemma update_at_rest:
  assumes "isAlive p" "vx p = 0" "vy p = 0" "targetAngle p = angle p"
    and "TANK_RADIUS \<le> x p" "x p \<le> ARENA_WIDTH - TANK_RADIUS"
    and "TANK_RADIUS \<le> y p" "y p \<le> ARENA_HEIGHT - TANK_RADIUS"
  shows "update deltaTime now r1 r2 p = (p, [])"
  using assms by (simp add: update_def wrap_down_id wrap_up_id Let_def)

lemma collide_row_right:
  assumes "isAlive p1" "isAlive p2" "y p1 = y p2" "x p2 < x p1" "x p1 - x p2 < 30"
  shows "collide p1 p2 =
    (p1\<lparr> vx := vx p1 - (x p1 + 30 - x p2) / 10, x := x p1 + (30 - (x p1 - x p2)) / 2 \<rparr>,
     p2\<lparr> vx := vx p2 + (x p1 + 30 - x p2) / 10, x := x p2 - (30 - (x p1 - x p2)) / 2 \<rparr>)"
proof -
  have d: "sqrt ((x p1 - x p2) * (x p1 - x p2) + (y p1 - y p2) * (y p1 - y p2)) = x p1 - x p2"
    using assms by simp
  have a: "Math_atan2 (y p1 - y p2) (x p1 - x p2) = 0"
    using assms by (simp add: Math_atan2_def)
  have "collide p1 p2 =
    (p1\<lparr> vx := vx p1 - (x p1 + 30 - x p2) / 10, vy := vy p1 - (y p1 - y p2) / 10,
         x := x p1 + (30 - (x p1 - x p2)) / 2, y := y p1 \<rparr>,
     p2\<lparr> vx := vx p2 + (x p1 + 30 - x p2) / 10, vy := vy p2 + (y p1 - y p2) / 10,
         x := x p2 - (30 - (x p1 - x p2)) / 2, y := y p2 \<rparr>)"
    unfolding collide_def Let_def d a using assms(1,2,5) by (simp add: TANK_RADIUS_def)
  then show ?thesis using assms(3) by simp
qed

lemma collide_row_left:
  assumes "isAlive p1" "isAlive p2" "y p1 = y p2" "x p1 < x p2" "x p2 - x p1 < 30"
  shows "collide p1 p2 =
    (p1\<lparr> vx := vx p1 - (x p1 - 30 - x p2) / 10, x := x p1 + (x p2 - x p1 - 30) / 2 \<rparr>,
     p2\<lparr> vx := vx p2 + (x p1 - 30 - x p2) / 10, x := x p2 - (x p2 - x p1 - 30) / 2 \<rparr>)"
proof -
  have d: "sqrt ((x p1 - x p2) * (x p1 - x p2) + (y p1 - y p2) * (y p1 - y p2)) = x p2 - x p1"
    using assms by simp
  have a: "Math_atan2 (y p1 - y p2) (x p1 - x p2) = pi"
    using assms by (simp add: Math_atan2_def)
  have "collide p1 p2 =
    (p1\<lparr> vx := vx p1 - (x p1 - 30 - x p2) / 10, vy := vy p1 - (y p1 - y p2) / 10,
         x := x p1 + (x p2 - x p1 - 30) / 2, y := y p1 \<rparr>,
     p2\<lparr> vx := vx p2 + (x p1 - 30 - x p2) / 10, vy := vy p2 + (y p1 - y p2) / 10,
         x := x p2 - (x p2 - x p1 - 30) / 2, y := y p2 \<rparr>)"
    unfolding collide_def Let_def d a using assms(1,2,5) by (simp add: TANK_RADIUS_def)
  then show ?thesis using assms(3) by simp
qed

lemma collide_row_apart:
  assumes "y p1 = y p2" "30 \<le> \<bar>x p1 - x p2\<bar>"
  shows "collide p1 p2 = (p1, p2)"
  using assms by (simp add: collide_def Let_def TANK_RADIUS_def)


lemma tank_collisions_two: "tank_collisions [p1, p2] = (case collide p1 p2 of (q1, q2) \<Rightarrow> [q1, q2])"
  by (simp add: tank_collisions_def collide_at_def upt_rec split: prod.splits)

lemma update_in_arena:
  assumes "isAlive p"
  shows "TANK_RADIUS \<le> x (fst (update deltaTime now r1 r2 p)) \<and>
         x (fst (update deltaTime now r1 r2 p)) \<le> ARENA_WIDTH - TANK_RADIUS \<and>
         TANK_RADIUS \<le> y (fst (update deltaTime now r1 r2 p)) \<and>
         y (fst (update deltaTime now r1 r2 p)) \<le> ARENA_HEIGHT - TANK_RADIUS"
  using assms by (simp add: update_def Let_def GAME_CONFIG)

subsection \<open>Positions in the snapshot\<close>

text \<open>
  C2.  The claim wants every tank inside the arena, by at least its radius, in every
  snapshot.  \<^verbatim>\<open>update\<close> clamps the position of an alive tank (lemma
  \<open>update_in_arena\<close>), but the tank-to-tank pass that follows it in the same tick
  moves the tanks again and does not clamp.  Two resting tanks at (1185, 100) and
  (1175, 100): the snapshot of the next tick shows the first one at x = 1195, which is
  more than \<open>ARENA_WIDTH - TANK_RADIUS\<close> = 1185.
\<close>

theorem snapshot_outside_arena:
  "snapshot_positions (last (snd (gameLoop (steady_clock 2000) (\<lambda>k. (0, 0)) world_edge))) =
     [(''edge'', 1195, 100), (''near'', 1165, 100)] \<and>
   ARENA_WIDTH - TANK_RADIUS < 1195"
proof -
  have e: "isAlive tank_edge" "vx tank_edge = 0" "vy tank_edge = 0" "targetAngle tank_edge = angle tank_edge"
    "TANK_RADIUS \<le> x tank_edge" "x tank_edge \<le> ARENA_WIDTH - TANK_RADIUS"
    "TANK_RADIUS \<le> y tank_edge" "y tank_edge \<le> ARENA_HEIGHT - TANK_RADIUS"
    by (simp_all add: tank_edge_def Player_def GAME_CONFIG)
  have n: "isAlive tank_near" "vx tank_near = 0" "vy tank_near = 0" "targetAngle tank_near = angle tank_near"
    "TANK_RADIUS \<le> x tank_near" "x tank_near \<le> ARENA_WIDTH - TANK_RADIUS"
    "TANK_RADIUS \<le> y tank_near" "y tank_near \<le> ARENA_HEIGHT - TANK_RADIUS"
    by (simp_all add: tank_near_def Player_def GAME_CONFIG)
  have c: "collide tank_edge tank_near =
      (tank_edge\<lparr> vx := - 4, x := 1195 \<rparr>, tank_near\<lparr> vx := 4, x := 1165 \<rparr>)"
  proof -
    have "isAlive tank_edge" "isAlive tank_near" "y tank_edge = y tank_near"
      "x tank_near < x tank_edge" "x tank_edge - x tank_near < 30"
      by (simp_all add: tank_edge_def tank_near_def Player_def)
    from collide_row_right [OF this] show ?thesis
      by (simp add: tank_edge_def tank_near_def Player_def)
  qed
  have "gameLoop (steady_clock 2000) (\<lambda>k. (0, 0)) world_edge =
      (world_edge\<lparr> players := [tank_edge\<lparr> vx := - 4, x := 1195 \<rparr>, tank_near\<lparr> vx := 4, x := 1165 \<rparr>],
                   lastUpdate := 2000 \<rparr>,
       [EvState [(''edge'', toJSON (tank_edge\<lparr> vx := - 4, x := 1195 \<rparr>)),
                 (''near'', toJSON (tank_near\<lparr> vx := 4, x := 1165 \<rparr>))] [] 2000])"
    by (simp add: gameLoop_def steady_clock_def world_edge_def update_at_rest [OF e]
        update_at_rest [OF n] tank_collisions_two c sweep_def)
       (simp add: tank_edge_def tank_near_def Player_def)
  then show ?thesis
    by (simp add: snapshot_positions_def toJSON_def tank_edge_def tank_near_def Player_def
        GAME_CONFIG)
qed

subsection \<open>Tank against tank\<close>

text \<open>
  C3.  The claim wants the velocities of two overlapping tanks nudged towards
  separation.  The position push does separate them, but the velocity change has the
  opposite sign: with the first tank at (110, 100) and the second at (100, 100), both
  at rest, the first tank is moved to x = 120 and gets the velocity -4 (towards the
  second), the second is moved to x = 90 and gets the velocity +4 (towards the first).
\<close>

theorem collide_velocity_towards_other:
  "isAlive tank_east \<and> isAlive tank_west \<and> x tank_west < x tank_east \<and>
   vx tank_east = 0 \<and> vx tank_west = 0 \<and>
   collide tank_east tank_west =
     (tank_east\<lparr> vx := - 4, x := 120 \<rparr>, tank_west\<lparr> vx := 4, x := 90 \<rparr>)"
proof -
  have "isAlive tank_east" "isAlive tank_west" "y tank_east = y tank_west"
    "x tank_west < x tank_east" "x tank_east - x tank_west < 30"
    by (simp_all add: tank_east_def tank_west_def Player_def)
  from collide_row_right [OF this] show ?thesis
    by (simp add: tank_east_def tank_west_def Player_def)
qed

lemma tank_collisions_three:
  "tank_collisions [p1, p2, p3] =
     (case collide p1 p2 of (a1, a2) \<Rightarrow>
      case collide a1 p3 of (b1, b3) \<Rightarrow>
      case collide a2 b3 of (c2, c3) \<Rightarrow> [b1, c2, c3])"
  by (simp add: tank_collisions_def collide_at_def upt_rec numeral_2_eq_2 split: prod.splits)

text \<open>
  C5, as the claim states it, fails: the result of the tank-to-tank pass depends on the
  order in which the pairs are visited.  Three resting tanks in a row at x = 100, 112
  and 124: with the players enumerated left to right the left tank ends at x = 91, with
  the same players enumerated right to left it ends at x = 173/2.
\<close>

theorem tank_collisions_order_counterexample:
  "map (\<lambda>p. (pid p, x p)) (tank_collisions [tank_l, tank_m, tank_r]) =
     [(''left'', 91), (''mid'', 215 / 2), (''right'', 275 / 2)] \<and>
   map (\<lambda>p. (pid p, x p)) (tank_collisions [tank_r, tank_m, tank_l]) =
     [(''right'', 133), (''mid'', 233 / 2), (''left'', 173 / 2)]"
  by (simp add: tank_collisions_three tank_l_def tank_m_def tank_r_def Player_def
      collide_row_left collide_row_right collide_row_apart)

lemma fold_concat_map:
  "fold f (concat (map g xs)) s = fold (\<lambda>a. fold f (g a)) xs s"
  by (induction xs arbitrary: s) simp_all

lemma tank_collisions_pairs:
  "tank_collisions ps = fold (\<lambda>(i, j). collide_at i j) (pair_order (length ps)) ps"
  by (simp add: tank_collisions_def pair_order_def fold_concat_map fold_map comp_def)

lemma pair_order_set: "set (pair_order n) = {(i, j). i < j \<and> j < n}"
proof -
  have "(a, b) \<in> set (pair_order n) \<longleftrightarrow> a < b \<and> b < n" for a b
    by (force simp add: pair_order_def)
  then show ?thesis by auto
qed

lemma pair_order_distinct: "distinct (pair_order n)"
  unfolding pair_order_def
proof (rule distinct_concat)
  have "i = k" if "i < n" "k < n" "map (Pair i) [i + 1 ..< n] = map (Pair k) [k + 1 ..< n]" for i k
  proof -
    from that(3) have "length [i + 1 ..< n] = length [k + 1 ..< n]"
      by (rule map_eq_imp_length_eq)
    with that(1,2) show ?thesis by simp
  qed
  then show "distinct (map (\<lambda>i. map (Pair i) [i + 1 ..< n]) [0 ..< n])"
    by (auto simp add: distinct_map inj_on_def)
next
  fix ys assume "ys \<in> set (map (\<lambda>i. map (Pair i) [i + 1 ..< n]) [0 ..< n])"
  then show "distinct ys" by (auto simp add: distinct_map inj_on_def)
next
  fix ys zs
  assume "ys \<in> set (map (\<lambda>i. map (Pair i) [i + 1 ..< n]) [0 ..< n])"
    "zs \<in> set (map (\<lambda>i. map (Pair i) [i + 1 ..< n]) [0 ..< n])" "ys \<noteq> zs"
  then show "set ys \<inter> set zs = {}" by auto
qed

lemma collide_opposite:
  "(case collide p1 p2 of (q1, q2) \<Rightarrow>
      x q1 - x p1 = - (x q2 - x p2) \<and> y q1 - y p1 = - (y q2 - y p2) \<and>
      vx q1 - vx p1 = - (vx q2 - vx p2) \<and> vy q1 - vy p1 = - (vy q2 - vy p2))"
  by (simp add: collide_def Let_def)

text \<open>
  C5, amended.  For every pair of tanks handed to the collision response, the change
  of position of the first tank is the exact negation of the change of position of the
  second, and so is the change of velocity.  One pass handles every pair of array
  positions \<open>i < j\<close> exactly once, in the order of the nested loops, each pair on the
  positions that the earlier pairs of the same pass have left.  (Nothing is said about
  other enumeration orders giving the same result.)
\<close>

theorem tank_collisions_symmetric:
  "(case collide p1 p2 of
      (q1, q2) \<Rightarrow>
        x q1 - x p1 = - (x q2 - x p2) \<and> y q1 - y p1 = - (y q2 - y p2) \<and>
        vx q1 - vx p1 = - (vx q2 - vx p2) \<and> vy q1 - vy p1 = - (vy q2 - vy p2)) \<and>
   tank_collisions ps = fold (\<lambda>(i, j). collide_at i j) (pair_order (length ps)) ps \<and>
   distinct (pair_order (length ps)) \<and>
   set (pair_order (length ps)) = {(i, j). i < j \<and> j < length ps}"
  using collide_opposite [of p1 p2] tank_collisions_pairs [of ps] pair_order_distinct [of "length ps"]
    pair_order_set [of "length ps"]
  by blast

subsection \<open>Hit points\<close>

lemma lookup_pid: "lookup k ps = Some p \<Longrightarrow> pid p = k"
  by (auto simp add: lookup_def dest: find_Some_iff [THEN iffD1])

lemma lookup_modify_same:
  "lookup k ps = Some p \<Longrightarrow> pid (f p) = k \<Longrightarrow> lookup k (modify k f ps) = Some (f p)"
  by (induction ps) (auto simp add: lookup_def modify_def)

lemma lookup_modify_other:
  "k' \<noteq> k \<Longrightarrow> (\<And>q. pid q = k \<Longrightarrow> pid (f q) = k) \<Longrightarrow> lookup k' (modify k f ps) = lookup k' ps"
  by (induction ps) (auto simp add: lookup_def modify_def)

lemma pid_modify:
  "(\<And>q. pid q = k \<Longrightarrow> pid (f q) = k) \<Longrightarrow> map pid (modify k f ps) = map pid ps"
  by (induction ps) (auto simp add: modify_def)

lemma modify_all:
  assumes "\<forall>p\<in>set ps. P p" and "\<And>q. P q \<Longrightarrow> pid q = k \<Longrightarrow> P (f q)"
  shows "\<forall>p\<in>set (modify k f ps). P p"
  using assms by (auto simp add: modify_def)

lemma lookup_in_set: "lookup k ps = Some p \<Longrightarrow> p \<in> set ps"
  by (auto simp add: lookup_def find_Some_iff)

lemma hp_inv_update: "hp_inv p \<Longrightarrow> hp_inv (fst (update deltaTime now r1 r2 p))"
  by (simp add: update_def respawn_def hp_inv_def Let_def MAX_HEALTH_def)

lemma hp_inv_respawn: "hp_inv (fst (respawn r1 r2 p))"
  by (simp add: respawn_def hp_inv_def MAX_HEALTH_def)

lemma hp_inv_repair: "hp_inv p \<Longrightarrow> hp_inv (fst (repair now lrt p))"
  by (auto simp add: repair_def hp_inv_def MAX_HEALTH_def REPAIR_AMOUNT_def)

lemma hp_inv_takeDamage:
  assumes "\<forall>p\<in>set ps. hp_inv p" and "0 \<le> damage"
  shows "\<forall>p\<in>set (fst (takeDamage now damage attackerId k ps)). hp_inv p"
proof (cases "lookup k ps")
  case None
  then show ?thesis using assms by (simp add: takeDamage_def)
next
  case (Some p)
  then have p: "hp_inv p" using assms(1) lookup_in_set by blast
  show ?thesis
  proof (cases "isAlive p")
    case False
    then show ?thesis using Some assms by (simp add: takeDamage_def)
  next
    case True
    show ?thesis
    proof (cases "hp p - damage \<le> 0")
      case dead: True
      let ?d = "fst (die now (p\<lparr> hp := hp p - damage \<rparr>))"
      have d: "hp_inv ?d" by (simp add: die_def hp_inv_def MAX_HEALTH_def)
      have 1: "\<forall>q\<in>set (modify k (\<lambda>_. ?d) ps). hp_inv q"
        using assms(1) d by (rule modify_all)
      have 2: "\<forall>q\<in>set (modify attackerId (\<lambda>q. q\<lparr> score := score q + 100 \<rparr>) (modify k (\<lambda>_. ?d) ps)). hp_inv q"
        using 1 by (rule modify_all) (simp add: hp_inv_def)
      show ?thesis
        using Some True dead 1 2
        by (simp add: takeDamage_def Let_def split: prod.splits option.splits)
    next
      case alive: False
      have "hp_inv (p\<lparr> hp := hp p - damage \<rparr>)"
        using p alive assms(2) True by (simp add: hp_inv_def)
      with assms(1) have "\<forall>q\<in>set (modify k (\<lambda>_. p\<lparr> hp := hp p - damage \<rparr>) ps). hp_inv q"
        by (rule modify_all)
      then show ?thesis using Some True alive by (simp add: takeDamage_def Let_def)
    qed
  qed
qed

lemma hp_inv_bullets_phase:
  assumes "\<forall>p\<in>set ps. hp_inv p"
  shows "\<forall>p\<in>set (fst (snd (bullets_phase clk deltaTime i bs ps))). hp_inv p"
proof (induction bs arbitrary: i)
  case Nil
  then show ?case using assms by simp
next
  case (Cons b bs)
  obtain bs1 ps1 ev1 where r: "bullets_phase clk deltaTime (Suc i) bs ps = (bs1, ps1, ev1)"
    by (cases "bullets_phase clk deltaTime (Suc i) bs ps") auto
  with Cons [of "Suc i"] have ps1: "\<forall>p\<in>set ps1. hp_inv p" by simp
  have "\<forall>p\<in>set ps2. hp_inv p"
    if "takeDamage now BULLET_DAMAGE a k ps1 = (ps2, died, ev2)" for now a k ps2 died ev2
    using hp_inv_takeDamage [OF ps1, of BULLET_DAMAGE now a k] that by (simp add: BULLET_DAMAGE_def)
  then show ?case using r ps1
    by (auto split: prod.splits option.splits if_splits)
qed

lemma hp_inv_collide:
  "hp_inv p1 \<Longrightarrow> hp_inv (fst (collide p1 p2))" "hp_inv p2 \<Longrightarrow> hp_inv (snd (collide p1 p2))"
  by (simp_all add: collide_def Let_def hp_inv_def)

lemma hp_inv_collide_at:
  assumes "\<forall>p\<in>set ps. hp_inv p" and "i < length ps" and "j < length ps"
  shows "\<forall>p\<in>set (collide_at i j ps). hp_inv p"
proof -
  obtain q1 q2 where c: "collide (ps ! i) (ps ! j) = (q1, q2)"
    by (cases "collide (ps ! i) (ps ! j)") auto
  have "hp_inv q1" "hp_inv q2"
    using hp_inv_collide [where ?p1.0 = "ps ! i" and ?p2.0 = "ps ! j"] assms c by simp_all
  moreover have "set (ps[i := q1, j := q2]) \<subseteq> insert q2 (insert q1 (set ps))"
    by (meson set_update_subset_insert subset_trans insert_mono)
  ultimately show ?thesis using assms(1) c by (auto simp add: collide_at_def)
qed

lemma length_collide_at: "length (collide_at i j ps) = length ps"
  by (simp add: collide_at_def split: prod.splits)

lemma hp_inv_fold_pairs:
  assumes "\<forall>p\<in>set ps. hp_inv p" and "\<forall>(i, j)\<in>set pairs. i < length ps \<and> j < length ps"
  shows "\<forall>p\<in>set (fold (\<lambda>(i, j). collide_at i j) pairs ps). hp_inv p"
  using assms
proof (induction pairs arbitrary: ps)
  case Nil
  then show ?case by simp
next
  case (Cons ij pairs)
  obtain i j where ij: "ij = (i, j)" by (cases ij)
  have "\<forall>p\<in>set (collide_at i j ps). hp_inv p"
    using Cons.prems ij by (intro hp_inv_collide_at) auto
  moreover have "\<forall>(a, b)\<in>set pairs. a < length (collide_at i j ps) \<and> b < length (collide_at i j ps)"
    using Cons.prems(2) by (simp add: length_collide_at)
  ultimately show ?case using Cons.IH ij by simp
qed

lemma hp_inv_tank_collisions:
  assumes "\<forall>p\<in>set ps. hp_inv p"
  shows "\<forall>p\<in>set (tank_collisions ps). hp_inv p"
  unfolding tank_collisions_pairs
  using assms by (rule hp_inv_fold_pairs) (auto simp add: pair_order_set)

lemma hp_inv_gameLoop:
  assumes "\<forall>p\<in>set (players w). hp_inv p"
  shows "\<forall>p\<in>set (players (fst (gameLoop clk rnd w))). hp_inv p"
proof -
  let ?dt = "real_of_int (c_start clk - lastUpdate w) / 1000"
  let ?ps1 = "map fst (map (\<lambda>p. update ?dt (c_update clk (pid p)) (fst (rnd (pid p)))
      (snd (rnd (pid p))) p) (players w))"
  have 1: "\<forall>p\<in>set ?ps1. hp_inv p"
    using assms by (auto simp add: hp_inv_update)
  obtain bs2 ps2 ev2 where r: "bullets_phase clk ?dt 0 (bullets w) ?ps1 = (bs2, ps2, ev2)"
    by (cases "bullets_phase clk ?dt 0 (bullets w) ?ps1") auto
  have "\<forall>p\<in>set ps2. hp_inv p"
    using hp_inv_bullets_phase [OF 1, of clk ?dt 0 "bullets w"] r by simp
  then have "\<forall>p\<in>set (tank_collisions ps2). hp_inv p" by (rule hp_inv_tank_collisions)
  then show ?thesis using r by (simp add: gameLoop_def Let_def)
qed

lemma hp_inv_perform:
  assumes "\<forall>p\<in>set (players w). hp_inv p" and "damage_ok (now, k, opn)"
  shows "\<forall>p\<in>set (players (perform now k opn w)). hp_inv p"
proof (cases opn)
  case (TakeDamage damage attackerId)
  then show ?thesis using assms by (simp add: hp_inv_takeDamage)
next
  case Repair
  show ?thesis
  proof (cases "lookup k (players w)")
    case None
    then show ?thesis using assms Repair by simp
  next
    case (Some p)
    then have "hp_inv p" using assms(1) lookup_in_set by blast
    then have "hp_inv (fst (repair now (lastRepairTime w) p))" by (rule hp_inv_repair)
    with assms(1) have "\<forall>q\<in>set (modify k (\<lambda>_. fst (repair now (lastRepairTime w) p)) (players w)). hp_inv q"
      by (rule modify_all)
    then show ?thesis using Some Repair by (simp split: prod.splits)
  qed
next
  case (Respawn r1 r2)
  have "\<forall>q\<in>set (modify k (\<lambda>p. fst (respawn r1 r2 p)) (players w)). hp_inv q"
    using assms(1) by (rule modify_all) (rule hp_inv_respawn)
  then show ?thesis using Respawn by simp
next
  case (Tick deltaTime r1 r2)
  have "\<forall>q\<in>set (modify k (\<lambda>p. fst (update deltaTime now r1 r2 p)) (players w)). hp_inv q"
    using assms(1) by (rule modify_all) (rule hp_inv_update)
  then show ?thesis using Tick by simp
next
  case (Loop clk rnd)
  then show ?thesis using assms(1) by (simp add: hp_inv_gameLoop)
qed

text \<open>
  C4.  Start from a registry in which every tank satisfies the invariant (a newly
  constructed tank does) and apply any sequence of \<^verbatim>\<open>takeDamage\<close> calls with
  non-negative damage, \<^verbatim>\<open>repair\<close>, \<^verbatim>\<open>respawn\<close> and \<^verbatim>\<open>update\<close> calls and
  whole runs of the game loop, to any players and at any clock readings.  Afterwards
  every tank has \<open>0 \<le> hp \<le> MAX_HEALTH\<close>, and \<open>hp = 0\<close> exactly when it is not alive.
  Death sets hp to 0, a respawn sets it to \<open>MAX_HEALTH\<close>, and a repair never lifts
  it above \<open>MAX_HEALTH\<close>.
\<close>

theorem hp_invariant:
  assumes "\<forall>p\<in>set (players w). hp_inv p" and "\<forall>s\<in>set steps. damage_ok s"
  shows "(\<forall>p\<in>set (players (run steps w)).
            0 \<le> hp p \<and> hp p \<le> MAX_HEALTH \<and> (hp p = 0) = (\<not> isAlive p)) \<and>
         hp_inv (Player i a b) \<and>
         hp (fst (die now q)) = 0 \<and> \<not> isAlive (fst (die now q)) \<and>
         hp (fst (respawn r1 r2 q)) = MAX_HEALTH \<and> isAlive (fst (respawn r1 r2 q)) \<and>
         hp (fst (repair now lrt q)) \<le> max (hp q) MAX_HEALTH"
proof -
  have "\<forall>p\<in>set (players (run steps w)). hp_inv p"
    using assms
  proof (induction steps arbitrary: w)
    case Nil
    then show ?case by simp
  next
    case (Cons s steps)
    obtain t k opn where s: "s = (t, k, opn)" by (cases s)
    have "\<forall>p\<in>set (players (perform t k opn w)). hp_inv p"
      using Cons.prems s by (intro hp_inv_perform) auto
    then show ?case using Cons s by simp
  qed
  then have "\<forall>p\<in>set (players (run steps w)).
      0 \<le> hp p \<and> hp p \<le> MAX_HEALTH \<and> (hp p = 0) = (\<not> isAlive p)"
    by (simp add: hp_inv_def)
  moreover have "hp_inv (Player i a b)"
    by (simp add: hp_inv_def Player_def MAX_HEALTH_def)
  moreover have "hp (fst (repair now lrt q)) \<le> max (hp q) MAX_HEALTH"
    by (simp add: repair_def min_le_iff_disj le_max_iff_disj)
  ultimately show ?thesis by (simp add: die_def respawn_def)
qed

theorem hp_invariant_witness:
  "list_all hp_inv (players world_duel) \<and> list_all damage_ok duel_steps \<and>
   list_all (\<lambda>p. 0 \<le> hp p \<and> hp p \<le> MAX_HEALTH \<and> (hp p = 0) = (\<not> isAlive p))
     (players (run duel_steps world_duel)) \<and>
   map (\<lambda>p. (hp p, isAlive p, score p)) (players (run (take 4 duel_steps) world_duel)) =
     [(0, False, 0), (100, True, 100)] \<and>
   map (\<lambda>p. (hp p, isAlive p, score p)) (players (run duel_steps world_duel)) =
     [(75, True, 0), (100, True, 100)]"
proof -
  have h: "\<forall>p\<in>set (players world_duel). hp_inv p" "\<forall>s\<in>set duel_steps. damage_ok s"
    by (simp_all add: world_duel_def duel_steps_def hp_inv_def tank_a_def tank_east_def Player_def
        MAX_HEALTH_def)
  have e4: "map (\<lambda>p. (hp p, isAlive p, score p)) (players (run (take 4 duel_steps) world_duel)) =
     [(0, False, 0), (100, True, 100)]"
    by (simp add: duel_steps_def world_duel_def tank_a_def tank_east_def Player_def takeDamage_def
        lookup_def modify_def die_def MAX_HEALTH_def Let_def)
  have e: "map (\<lambda>p. (hp p, isAlive p, score p)) (players (run duel_steps world_duel)) =
     [(75, True, 0), (100, True, 100)]"
    by (simp add: duel_steps_def world_duel_def tank_a_def tank_east_def Player_def takeDamage_def
        lookup_def modify_def die_def repair_def update_def respawn_def GAME_CONFIG Let_def)
  from hp_invariant [OF h] h e4 e show ?thesis
    by (simp add: list_all_iff)
qed

subsection \<open>Damage that does not kill\<close>

text \<open>
  C10.  When the tank stored under \<open>k\<close> is alive and has more hit points than the
  damage, \<^verbatim>\<open>takeDamage\<close> returns false, sends nothing, and replaces that tank by
  itself with hp reduced by exactly the damage: position, velocity, heading, target
  heading, score, alive flag and lastShot are those of before.  Every other player of
  the registry is unchanged, and the score of the attacker is what it was.
\<close>

theorem takeDamage_frame:
  assumes "lookup k ps = Some p" and "isAlive p" and "damage < hp p"
  shows "case takeDamage now damage attackerId k ps of
           (ps', died, ev) \<Rightarrow>
             \<not> died \<and> ev = [] \<and>
             lookup k ps' = Some (p\<lparr> hp := hp p - damage \<rparr>) \<and>
             (\<forall>k'. k' \<noteq> k \<longrightarrow> lookup k' ps' = lookup k' ps) \<and>
             map pid ps' = map pid ps \<and>
             map_option score (lookup attackerId ps') = map_option score (lookup attackerId ps)"
proof -
  have k: "pid p = k" using assms(1) by (rule lookup_pid)
  have td: "takeDamage now damage attackerId k ps =
      (modify k (\<lambda>q. p\<lparr> hp := hp p - damage \<rparr>) ps, False, [])"
    using assms by (simp add: takeDamage_def Let_def)
  have same: "lookup k (modify k (\<lambda>q. p\<lparr> hp := hp p - damage \<rparr>) ps) = Some (p\<lparr> hp := hp p - damage \<rparr>)"
    using assms(1) k by (simp add: lookup_modify_same)
  have other: "lookup k' (modify k (\<lambda>q. p\<lparr> hp := hp p - damage \<rparr>) ps) = lookup k' ps"
    if "k' \<noteq> k" for k'
    using that k by (simp add: lookup_modify_other)
  have att: "map_option score (lookup attackerId (modify k (\<lambda>q. p\<lparr> hp := hp p - damage \<rparr>) ps)) =
      map_option score (lookup attackerId ps)"
  proof (cases "attackerId = k")
    case True
    then show ?thesis using same assms(1) by simp
  next
    case False
    then show ?thesis by (simp add: other)
  qed
  show ?thesis
    unfolding td using same other att k by (simp add: pid_modify)
qed

theorem takeDamage_frame_witness:
  "lookup ''aaaa'' [tank_a, tank_east] = Some tank_a \<and> isAlive tank_a \<and> 25 < hp tank_a \<and>
   \<not> fst (snd (takeDamage 5000 25 ''east'' ''aaaa'' [tank_a, tank_east])) \<and>
   snd (snd (takeDamage 5000 25 ''east'' ''aaaa'' [tank_a, tank_east])) = [] \<and>
   lookup ''aaaa'' (fst (takeDamage 5000 25 ''east'' ''aaaa'' [tank_a, tank_east])) =
     Some (tank_a\<lparr> hp := 75 \<rparr>) \<and>
   lookup ''east'' (fst (takeDamage 5000 25 ''east'' ''aaaa'' [tank_a, tank_east])) =
     Some tank_east"
proof -
  have h: "lookup ''aaaa'' [tank_a, tank_east] = Some tank_a" "isAlive tank_a" "25 < hp tank_a"
    by (simp_all add: lookup_def tank_a_def tank_east_def Player_def MAX_HEALTH_def)
  have e: "lookup ''east'' [tank_a, tank_east] = Some tank_east" "hp tank_a - 25 = 75"
    by (simp_all add: lookup_def tank_a_def tank_east_def Player_def MAX_HEALTH_def)
  from takeDamage_frame [OF h, where now = 5000 and attackerId = "''east''"] h e
  show ?thesis by (auto split: prod.splits)
qed

subsection \<open>Failure conditions\<close>

text \<open>
  C7.  Firing while dead or on cooldown returns no projectile and leaves the tank,
  lastShot included, as it was.  Repairing while dead, or less than \<open>REPAIR_COOLDOWN\<close>
  after the recorded repair (the record holds a clock reading, which is never 0),
  returns false and leaves the tank and the repair record as they were.
  \<^verbatim>\<open>takeDamage\<close> on a tank that is not alive returns false, sends nothing and
  leaves the registry as it was.  None of the three has a failing path: each is a
  total function whose result type has no error.
\<close>

theorem failures_are_silent:
  "(\<not> isAlive p \<or> now - lastShot p < shootCooldown p \<longrightarrow> shoot now p = (p, None)) \<and>
   (\<not> isAlive p \<or> (\<exists>t. lrt (pid p) = Some t \<and> t \<noteq> 0 \<and> now - t < REPAIR_COOLDOWN) \<longrightarrow>
      repair now lrt p = (p, lrt, False)) \<and>
   (lookup k ps = Some q \<and> \<not> isAlive q \<longrightarrow>
      takeDamage now damage attackerId k ps = (ps, False, []))"
  by (auto simp add: shoot_def repair_def takeDamage_def)

theorem failures_are_silent_witness:
  "5000 - lastShot tank_busy < shootCooldown tank_busy \<and>
   shoot 5000 tank_busy = (tank_busy, None) \<and>
   repaired_at_4000 (pid tank_busy) = Some 4000 \<and> 5000 - 4000 < REPAIR_COOLDOWN \<and>
   repair 5000 repaired_at_4000 tank_busy = (tank_busy, repaired_at_4000, False) \<and>
   lookup ''aaaa'' [tank_dead] = Some tank_dead \<and> \<not> isAlive tank_dead \<and>
   takeDamage 5000 25 ''east'' ''aaaa'' [tank_dead] = ([tank_dead], False, [])"
proof -
  have s: "5000 - lastShot tank_busy < shootCooldown tank_busy"
    by (simp add: tank_busy_def tank_a_def Player_def)
  have r: "repaired_at_4000 (pid tank_busy) = Some 4000" "5000 - 4000 < REPAIR_COOLDOWN"
    by (simp_all add: repaired_at_4000_def tank_busy_def tank_a_def Player_def REPAIR_COOLDOWN_def)
  have r': "\<exists>t. repaired_at_4000 (pid tank_busy) = Some t \<and> t \<noteq> 0 \<and> 5000 - t < REPAIR_COOLDOWN"
    using r by simp
  have d: "lookup ''aaaa'' [tank_dead] = Some tank_dead" "\<not> isAlive tank_dead"
    by (simp_all add: lookup_def tank_dead_def tank_a_def Player_def)
  note t = failures_are_silent [of tank_busy 5000 repaired_at_4000 "''aaaa''" "[tank_dead]"
      tank_dead 25 "''east''"]
  have e1: "shoot 5000 tank_busy = (tank_busy, None)"
    using t s by blast
  have e2: "repair 5000 repaired_at_4000 tank_busy = (tank_busy, repaired_at_4000, False)"
    using t r' by blast
  have e3: "takeDamage 5000 25 ''east'' ''aaaa'' [tank_dead] = ([tank_dead], False, [])"
    using t d by blast
  show ?thesis using s r d e1 e2 e3 by blast
qed

subsection \<open>Shot cooldown\<close>

text \<open>
  C6, as the claim states it, fails: it promises a projectile for the first of any two
  calls of an alive tank.  A tank that fired at 4900 and calls again at 5000 and at
  5100 gets no projectile at 5000, because that call is itself within the cooldown of
  the earlier shot.
\<close>

theorem shoot_first_call_counterexample:
  "isAlive tank_busy \<and> 5100 - 5000 < shootCooldown tank_busy \<and>
   snd (shoot 5000 tank_busy) = None"
  by (simp add: shoot_def tank_busy_def tank_a_def Player_def)

text \<open>
  C6, amended.  Take an alive tank whose previous shot is at least \<open>shootCooldown\<close> old
  at the first call, so that the first call itself is off cooldown, and let the tank be
  alive with unchanged lastShot and cooldown at the second call.  The first call yields
  a projectile and records its time.  A second call less than \<open>shootCooldown\<close> after
  the first yields none and changes nothing; a second call more than \<open>shootCooldown\<close>
  after the first yields a projectile.  A tank that is not alive never yields one.  The
  constructor sets \<open>shootCooldown\<close> to 300.
\<close>

theorem shoot_cooldown:
  assumes "isAlive p" and "shootCooldown p \<le> t1 - lastShot p"
    and "isAlive p'" and "lastShot p' = lastShot (fst (shoot t1 p))"
    and "shootCooldown p' = shootCooldown p"
  shows "snd (shoot t1 p) \<noteq> None \<and> lastShot (fst (shoot t1 p)) = t1 \<and>
         (t2 - t1 < shootCooldown p \<longrightarrow> shoot t2 p' = (p', None)) \<and>
         (t2 - t1 > shootCooldown p \<longrightarrow> snd (shoot t2 p') \<noteq> None \<and> lastShot (fst (shoot t2 p')) = t2) \<and>
         (\<not> isAlive q \<longrightarrow> shoot t q = (q, None)) \<and>
         shootCooldown (Player i a b) = 300"
  using assms by (auto simp add: shoot_def Let_def Player_def)

theorem shoot_cooldown_witness:
  "isAlive tank_a \<and> shootCooldown tank_a \<le> 1000 - lastShot tank_a \<and>
   snd (shoot 1000 tank_a) \<noteq> None \<and>
   1100 - 1000 < shootCooldown tank_a \<and>
   shoot 1100 (fst (shoot 1000 tank_a)) = (fst (shoot 1000 tank_a), None) \<and>
   1400 - 1000 > shootCooldown tank_a \<and>
   snd (shoot 1400 (fst (shoot 1000 tank_a))) \<noteq> None"
proof -
  have a: "isAlive tank_a" "shootCooldown tank_a \<le> 1000 - lastShot tank_a"
    by (simp_all add: tank_a_def Player_def)
  have b: "isAlive (fst (shoot 1000 tank_a))"
    "lastShot (fst (shoot 1000 tank_a)) = lastShot (fst (shoot 1000 tank_a))"
    "shootCooldown (fst (shoot 1000 tank_a)) = shootCooldown tank_a"
    by (simp_all add: shoot_def tank_a_def Player_def)
  have c: "(1100::int) - 1000 < shootCooldown tank_a" "(1400::int) - 1000 > shootCooldown tank_a"
    by (simp_all add: tank_a_def Player_def)
  from shoot_cooldown [OF a b, where ?t2.0 = 1100] shoot_cooldown [OF a b, where ?t2.0 = 1400] a c
  show ?thesis by simp
qed

subsection \<open>Death and respawn\<close>

text \<open>
  C9.  A tank that dies at clock reading \<open>t\<close> has its respawn scheduled at
  \<open>t + RESPAWN_TIME\<close> and is not alive.  Every \<^verbatim>\<open>update\<close> whose clock reading is
  not later than that timestamp leaves it exactly as it was, so it stays not alive
  through any run of such ticks.  The first \<^verbatim>\<open>update\<close> whose clock reading is later
  makes it alive with \<open>hp = MAX_HEALTH\<close>, velocity zero, heading and target heading 0.
\<close>

theorem respawn_round_trip:
  assumes "\<forall>u\<in>set ticks. fst (snd u) \<le> t + RESPAWN_TIME"
  shows "respawnTime (fst (die t p)) = t + RESPAWN_TIME \<and>
         \<not> isAlive (fst (die t p)) \<and>
         updates ticks (fst (die t p)) = fst (die t p) \<and>
         (t + RESPAWN_TIME < now \<longrightarrow>
            isAlive (fst (update deltaTime now r1 r2 (fst (die t p)))) \<and>
            hp (fst (update deltaTime now r1 r2 (fst (die t p)))) = MAX_HEALTH \<and>
            vx (fst (update deltaTime now r1 r2 (fst (die t p)))) = 0 \<and>
            vy (fst (update deltaTime now r1 r2 (fst (die t p)))) = 0 \<and>
            angle (fst (update deltaTime now r1 r2 (fst (die t p)))) = 0 \<and>
            targetAngle (fst (update deltaTime now r1 r2 (fst (die t p)))) = 0)"
proof -
  have stay: "updates us d = d"
    if "\<not> isAlive d" "\<forall>u\<in>set us. fst (snd u) \<le> respawnTime d" for us d
    using that by (induction us) (auto simp add: update_def)
  have "updates ticks (fst (die t p)) = fst (die t p)"
    using assms by (intro stay) (simp_all add: die_def)
  then show ?thesis
    by (simp add: die_def update_def respawn_def)
qed

theorem respawn_round_trip_witness:
  "list_all (\<lambda>u. fst (snd u) \<le> 1000 + RESPAWN_TIME) [(1 / 100, 1008, 0, 0), (1 / 100, 4000, 0, 0)] \<and>
   respawnTime (fst (die 1000 tank_a)) = 4000 \<and>
   \<not> isAlive (updates [(1 / 100, 1008, 0, 0), (1 / 100, 4000, 0, 0)] (fst (die 1000 tank_a))) \<and>
   1000 + RESPAWN_TIME < 4001 \<and>
   isAlive (fst (update (1 / 100) 4001 0 0 (fst (die 1000 tank_a)))) \<and>
   hp (fst (update (1 / 100) 4001 0 0 (fst (die 1000 tank_a)))) = 100"
proof -
  have h: "\<forall>u\<in>set [(1 / 100 :: real, 1008 :: int, 0 :: real, 0 :: real), (1 / 100, 4000, 0, 0)].
      fst (snd u) \<le> 1000 + RESPAWN_TIME"
    by (simp add: RESPAWN_TIME_def)
  have l: "1000 + RESPAWN_TIME < 4001" by (simp add: RESPAWN_TIME_def)
  from respawn_round_trip [OF h, of tank_a 4001 "1 / 100" 0 0] l h
  show ?thesis by (simp add: RESPAWN_TIME_def MAX_HEALTH_def)
qed

subsection \<open>Bullet expiry\<close>

lemma Bullet_update_createdAt: "b_createdAt (fst (Bullet_update deltaTime now b)) = b_createdAt b"
  by (simp add: Bullet_update_def Let_def)

lemma tank_collisions_one: "tank_collisions [p] = [p]"
  by (simp add: tank_collisions_def upt_rec)

lemma kept_by_update_Cons:
  "kept_by_update clk deltaTime i (b # bs) =
     (if snd (Bullet_update deltaTime (c_bullet clk i) b)
      then fst (Bullet_update deltaTime (c_bullet clk i) b) # kept_by_update clk deltaTime (Suc i) bs
      else kept_by_update clk deltaTime (Suc i) bs)"
  by (simp add: kept_by_update_def)

lemma bullets_phase_subseq:
  "subseq (fst (bullets_phase clk deltaTime i bs ps)) (kept_by_update clk deltaTime i bs)"
proof (induction bs arbitrary: i)
  case Nil
  then show ?case by (simp add: kept_by_update_def)
next
  case (Cons b bs)
  obtain bs1 ps1 ev1 where r: "bullets_phase clk deltaTime (Suc i) bs ps = (bs1, ps1, ev1)"
    by (cases "bullets_phase clk deltaTime (Suc i) bs ps") auto
  with Cons [of "Suc i"] have s: "subseq bs1 (kept_by_update clk deltaTime (Suc i) bs)" by simp
  obtain b1 stays where u: "Bullet_update deltaTime (c_bullet clk i) b = (b1, stays)"
    by (cases "Bullet_update deltaTime (c_bullet clk i) b") auto
  show ?case
    using r s u
    by (auto simp add: kept_by_update_Cons split: prod.splits option.splits)
qed

lemma kept_by_update_origin:
  "\<forall>c\<in>set (kept_by_update clk deltaTime 0 bs).
     \<exists>j<length bs. c = fst (Bullet_update deltaTime (c_bullet clk j) (bs ! j)) \<and>
       b_createdAt c = b_createdAt (bs ! j) \<and>
       c_bullet clk j - b_createdAt (bs ! j) \<le> BULLET_LIFETIME"
  by (auto simp add: kept_by_update_def in_set_enumerate_eq Bullet_update_def Let_def
      split: if_splits)

text \<open>
  C8, as the claim states it, fails in its second half: a snapshot stamped after
  \<open>t0 + BULLET_LIFETIME\<close> can carry the bullet created at \<open>t0\<close>.  A bullet created at
  1000 that hits nothing, in a tick whose \<^verbatim>\<open>Bullet.update\<close> reads the clock at 3000
  and whose snapshot is stamped 3001: the age 2000 does not exceed the lifetime, the
  bullet stays, and the snapshot with timestamp 3001 contains it.
\<close>

theorem snapshot_after_expiry_counterexample:
  "late_bullet \<in> set (bullets world_race) \<and>
   b_createdAt late_bullet + BULLET_LIFETIME < c_stamp clock_race \<and>
   find (hits (late_bullet\<lparr> b_x := 12507 / 25 \<rparr>)) (players world_race) = None \<and>
   last (snd (gameLoop clock_race (\<lambda>k. (0, 0)) world_race)) =
     EvState [(''aaaa'', toJSON tank_a)] [Bullet_toJSON (late_bullet\<lparr> b_x := 12507 / 25 \<rparr>)] 3001"
proof -
  have a: "isAlive tank_a" "vx tank_a = 0" "vy tank_a = 0" "targetAngle tank_a = angle tank_a"
    "TANK_RADIUS \<le> x tank_a" "x tank_a \<le> ARENA_WIDTH - TANK_RADIUS"
    "TANK_RADIUS \<le> y tank_a" "y tank_a \<le> ARENA_HEIGHT - TANK_RADIUS"
    by (simp_all add: tank_a_def Player_def GAME_CONFIG)
  have u: "Bullet_update (1 / 125) 3000 late_bullet = (late_bullet\<lparr> b_x := 12507 / 25 \<rparr>, True)"
    by (simp add: Bullet_update_def late_bullet_def Let_def GAME_CONFIG)
  have miss: "\<not> hits (late_bullet\<lparr> b_x := 12507 / 25 \<rparr>) tank_a"
    by (simp add: hits_def late_bullet_def tank_a_def Player_def)
  have g: "last (snd (gameLoop clock_race (\<lambda>k. (0, 0)) world_race)) =
      EvState [(''aaaa'', toJSON tank_a)] [Bullet_toJSON (late_bullet\<lparr> b_x := 12507 / 25 \<rparr>)] 3001"
    by (simp add: gameLoop_def clock_race_def world_race_def update_at_rest [OF a] u miss
        tank_collisions_one)
       (simp add: tank_a_def Player_def)
  show ?thesis
    using g miss by (simp add: world_race_def clock_race_def late_bullet_def BULLET_LIFETIME_def)
qed

text \<open>
  C8, amended.  \<^verbatim>\<open>Bullet.update\<close> adds velocity times \<open>deltaTime\<close> to the position
  and changes nothing else; it reports that the bullet is gone exactly when the new
  position is more than 50 outside the arena on some side or the age of the bullet, at
  the clock reading of that call, is more than \<open>BULLET_LIFETIME\<close> (2000 ms).
  A snapshot shows position, velocity, derived heading and owner of each of its bullets.
  Consequently the bullets of the snapshot of a tick are, in order, among the bullets
  that their own update of that tick let stay, and so are the bullets the tick leaves
  in the world; each of those is the moved bullet of some array index whose age at its
  own update was at most \<open>BULLET_LIFETIME\<close>.  Every bullet the tick leaves in the world
  has an age of at most \<open>BULLET_LIFETIME\<close> at the clock reading of the final sweep, and
  no bullet created at \<open>t0\<close> is left in the world by a tick whose bullet updates all
  read the clock after \<open>t0 + BULLET_LIFETIME\<close>.
\<close>

theorem bullet_expiry:
  "(case Bullet_update deltaTime now b of
      (b1, stays) \<Rightarrow>
        b1 = b\<lparr> b_x := b_x b + b_vx b * deltaTime, b_y := b_y b + b_vy b * deltaTime \<rparr> \<and>
        (\<not> stays) =
          (b_x b1 < - 50 \<or> b_x b1 > ARENA_WIDTH + 50 \<or> b_y b1 < - 50 \<or> b_y b1 > ARENA_HEIGHT + 50 \<or>
           now - b_createdAt b > BULLET_LIFETIME)) \<and>
   BULLET_LIFETIME = 2000 \<and>
   Bullet_toJSON c0 =
     \<lparr> jb_x = b_x c0, jb_y = b_y c0, jb_vx = b_vx c0, jb_vy = b_vy c0,
       jb_angle = Math_atan2 (b_vy c0) (b_vx c0), jb_owner = b_owner c0 \<rparr> \<and>
   subseq (snapshot_bullets (last (snd (gameLoop clk rnd w))))
     (map Bullet_toJSON
        (kept_by_update clk (real_of_int (c_start clk - lastUpdate w) / 1000) 0 (bullets w))) \<and>
   subseq (bullets (fst (gameLoop clk rnd w)))
     (kept_by_update clk (real_of_int (c_start clk - lastUpdate w) / 1000) 0 (bullets w)) \<and>
   (\<forall>c\<in>set (kept_by_update clk (real_of_int (c_start clk - lastUpdate w) / 1000) 0 (bullets w)).
      \<exists>j<length (bullets w).
        c = fst (Bullet_update (real_of_int (c_start clk - lastUpdate w) / 1000) (c_bullet clk j)
                   (bullets w ! j)) \<and>
        b_createdAt c = b_createdAt (bullets w ! j) \<and>
        c_bullet clk j - b_createdAt (bullets w ! j) \<le> BULLET_LIFETIME) \<and>
   (\<forall>c\<in>set (bullets (fst (gameLoop clk rnd w))). c_sweep clk - b_createdAt c \<le> BULLET_LIFETIME) \<and>
   (\<forall>t0. (\<forall>j<length (bullets w). t0 + BULLET_LIFETIME < c_bullet clk j) \<longrightarrow>
      t0 \<notin> b_createdAt ` set (bullets (fst (gameLoop clk rnd w))))"
proof -
  let ?dt = "real_of_int (c_start clk - lastUpdate w) / 1000"
  let ?ps1 = "map fst (map (\<lambda>p. update ?dt (c_update clk (pid p)) (fst (rnd (pid p)))
      (snd (rnd (pid p))) p) (players w))"
  let ?K = "kept_by_update clk ?dt 0 (bullets w)"
  obtain bs2 ps2 ev2 where r: "bullets_phase clk ?dt 0 (bullets w) ?ps1 = (bs2, ps2, ev2)"
    by (cases "bullets_phase clk ?dt 0 (bullets w) ?ps1") auto
  have sub: "subseq bs2 ?K"
    using bullets_phase_subseq [of clk ?dt 0 "bullets w" ?ps1] r by simp
  have 1: "bullets (fst (gameLoop clk rnd w)) = sweep (c_sweep clk) bs2"
    using r by (simp add: gameLoop_def Let_def)
  have 2: "snapshot_bullets (last (snd (gameLoop clk rnd w))) = map Bullet_toJSON bs2"
    using r by (simp add: gameLoop_def Let_def snapshot_bullets_def)
  have a: "subseq (snapshot_bullets (last (snd (gameLoop clk rnd w)))) (map Bullet_toJSON ?K)"
    unfolding 2 using sub by (rule subseq_map)
  have "subseq (sweep (c_sweep clk) bs2) bs2"
    by (simp add: sweep_def)
  then have b: "subseq (bullets (fst (gameLoop clk rnd w))) ?K"
    unfolding 1 using sub by (rule subseq_order.order_trans)
  have c: "\<forall>c\<in>set (bullets (fst (gameLoop clk rnd w))). c_sweep clk - b_createdAt c \<le> BULLET_LIFETIME"
    unfolding 1 by (auto simp add: sweep_def)
  have d: "t0 \<notin> b_createdAt ` set (bullets (fst (gameLoop clk rnd w)))"
    if h: "\<forall>j < length (bullets w). t0 + BULLET_LIFETIME < c_bullet clk j" for t0
  proof
    assume "t0 \<in> b_createdAt ` set (bullets (fst (gameLoop clk rnd w)))"
    then obtain c where c: "c \<in> set (bullets (fst (gameLoop clk rnd w)))" "b_createdAt c = t0"
      by auto
    from b c(1) have "c \<in> set ?K" by (auto dest: list_emb_set)
    with kept_by_update_origin [of clk ?dt "bullets w"]
    obtain j where "j < length (bullets w)" "c_bullet clk j - b_createdAt c \<le> BULLET_LIFETIME"
      by force
    with h c(2) show False by force
  qed
  have e: "case Bullet_update deltaTime now b of
      (b1, stays) \<Rightarrow>
        b1 = b\<lparr> b_x := b_x b + b_vx b * deltaTime, b_y := b_y b + b_vy b * deltaTime \<rparr> \<and>
        (\<not> stays) =
          (b_x b1 < - 50 \<or> b_x b1 > ARENA_WIDTH + 50 \<or> b_y b1 < - 50 \<or> b_y b1 > ARENA_HEIGHT + 50 \<or>
           now - b_createdAt b > BULLET_LIFETIME)"
    by (simp add: Bullet_update_def Let_def)
  note o = kept_by_update_origin [of clk ?dt "bullets w"]
  show ?thesis using a b c d e o by (simp add: BULLET_LIFETIME_def Bullet_toJSON_def)
qed

theorem bullet_expiry_witness:
  "old_bullet \<in> set (bullets world_shot) \<and>
   list_all (\<lambda>j. b_createdAt old_bullet + BULLET_LIFETIME < c_bullet (steady_clock 3008) j)
     [0 ..< length (bullets world_shot)] \<and>
   b_createdAt old_bullet \<notin>
     b_createdAt ` set (bullets (fst (gameLoop (steady_clock 3008) (\<lambda>k. (0, 0)) world_shot))) \<and>
   kept_by_update (steady_clock 3008) (1 / 125) 0 (bullets world_shot) =
     [fresh_bullet\<lparr> b_y := 7507 / 25 \<rparr>] \<and>
   bullets (fst (gameLoop (steady_clock 3008) (\<lambda>k. (0, 0)) world_shot)) =
     [fresh_bullet\<lparr> b_y := 7507 / 25 \<rparr>] \<and>
   snapshot_bullets (last (snd (gameLoop (steady_clock 3008) (\<lambda>k. (0, 0)) world_shot))) =
     [Bullet_toJSON (fresh_bullet\<lparr> b_y := 7507 / 25 \<rparr>)] \<and>
   \<not> snd (Bullet_update (1 / 125) 3008 old_bullet) \<and>
   snd (Bullet_update (1 / 125) 2008 old_bullet)"
proof -
  have a: "isAlive tank_a" "vx tank_a = 0" "vy tank_a = 0" "targetAngle tank_a = angle tank_a"
    "TANK_RADIUS \<le> x tank_a" "x tank_a \<le> ARENA_WIDTH - TANK_RADIUS"
    "TANK_RADIUS \<le> y tank_a" "y tank_a \<le> ARENA_HEIGHT - TANK_RADIUS"
    by (simp_all add: tank_a_def Player_def GAME_CONFIG)
  have old: "Bullet_update (1 / 125) 3008 old_bullet = (old_bullet\<lparr> b_x := 12507 / 25 \<rparr>, False)"
    by (simp add: Bullet_update_def old_bullet_def Let_def GAME_CONFIG)
  have new: "Bullet_update (1 / 125) 3008 fresh_bullet = (fresh_bullet\<lparr> b_y := 7507 / 25 \<rparr>, True)"
    by (simp add: Bullet_update_def fresh_bullet_def Let_def GAME_CONFIG)
  have miss: "\<not> hits (fresh_bullet\<lparr> b_y := 7507 / 25 \<rparr>) tank_a"
    by (simp add: hits_def fresh_bullet_def tank_a_def Player_def)
  have stays: "snd (Bullet_update (1 / 125) 2008 old_bullet)"
    by (simp add: Bullet_update_def old_bullet_def Let_def GAME_CONFIG)
  have k: "kept_by_update (steady_clock 3008) (1 / 125) 0 (bullets world_shot) =
      [fresh_bullet\<lparr> b_y := 7507 / 25 \<rparr>]"
    by (simp add: kept_by_update_Cons world_shot_def steady_clock_def old new)
       (simp add: kept_by_update_def)
  have g: "bullets (fst (gameLoop (steady_clock 3008) (\<lambda>k. (0, 0)) world_shot)) =
      [fresh_bullet\<lparr> b_y := 7507 / 25 \<rparr>]"
    by (simp add: gameLoop_def steady_clock_def world_shot_def update_at_rest [OF a] sweep_def
        old new miss tank_collisions_one)
       (simp add: fresh_bullet_def BULLET_LIFETIME_def)
  have s: "snapshot_bullets (last (snd (gameLoop (steady_clock 3008) (\<lambda>k. (0, 0)) world_shot))) =
      [Bullet_toJSON (fresh_bullet\<lparr> b_y := 7507 / 25 \<rparr>)]"
    by (simp add: gameLoop_def steady_clock_def world_shot_def update_at_rest [OF a]
        old new miss tank_collisions_one snapshot_bullets_def)
  have l: "\<forall>j<length (bullets world_shot).
      b_createdAt old_bullet + BULLET_LIFETIME < c_bullet (steady_clock 3008) j"
    by (simp add: old_bullet_def BULLET_LIFETIME_def steady_clock_def)
  have m: "old_bullet \<in> set (bullets world_shot)"
    by (simp add: world_shot_def)
  from bullet_expiry [where clk = "steady_clock 3008" and rnd = "\<lambda>k. (0, 0)" and w = world_shot] l
  have "b_createdAt old_bullet \<notin>
      b_createdAt ` set (bullets (fst (gameLoop (steady_clock 3008) (\<lambda>k. (0, 0)) world_shot)))"
    by blast
  then show ?thesis using m l k g s old stays by (simp add: list_all_iff)
qed

end
